theory Spec2Isabelle
  imports Complex_Main "HOL-Library.Multiset"
begin

section \<open>Data model of \<open>confluent_scrollable.py\<close>\<close>

text \<open>
  Exceptions that the modelled code can raise or receive.  \<open>KeyboardInterrupt\<close> and
  \<open>SystemExit\<close> derive from \<open>BaseException\<close> only; the others derive from \<open>Exception\<close>.
\<close>

datatype exc =
    KeyError
  | ValueError
  | IndexError
  | CalledProcessError
  | FileNotFoundError
  | JSONDecodeError
  | KeyboardInterrupt
  | SystemExit

text \<open>
  One decoded JSON object of the inventory.  A field is \<open>None\<close> when the key is missing
  from the object; the values are strings (ASCII, one \<open>char\<close> per character).
\<close>

record endpoint =
  name :: "string option"
  ident :: "string option"
  phase :: "string option"
  ip_address :: "string option"
  connection_id :: "string option"

text \<open>The attributes of \<open>EndpointViewer\<close> that are not colours or the screen handle.\<close>

record viewer =
  endpoints :: "endpoint list"
  current_row :: int
  scroll_offset :: int
  auto_refresh :: bool
  refresh_interval :: int
  last_refresh_time :: real
  last_data_update_time :: real

text \<open>
  \<open>EndpointViewer.__init__\<close> up to the initial load; \<open>now\<close> is the reading of the clock.
\<close>

definition init_viewer :: "real \<Rightarrow> viewer" where
  "init_viewer now =
     \<lparr>endpoints = [], current_row = 0, scroll_offset = 0, auto_refresh = False,
      refresh_interval = 15, last_refresh_time = now, last_data_update_time = now\<rparr>"

section \<open>Fetching and loading\<close>

text \<open>
  \<open>get_endpoints\<close>: the argument is the outcome of running the external tool and decoding
  its output, either the exception raised on the way (\<open>Inl\<close>) or the decoded list.  The
  handler is a bare \<open>except:\<close>, so it catches every exception, \<open>KeyboardInterrupt\<close> and
  \<open>SystemExit\<close> included.
\<close>

definition get_endpoints :: "exc + endpoint list \<Rightarrow> endpoint list" where
  "get_endpoints outcome = (case outcome of Inl e \<Rightarrow> [] | Inr eps \<Rightarrow> eps)"

text \<open>\<open>str.split(sep)\<close> for a one-character separator.\<close>

fun py_split :: "char \<Rightarrow> string \<Rightarrow> string list" where
  "py_split sep [] = [[]]"
| "py_split sep (c # cs) =
     (if c = sep then [] # py_split sep cs
      else (case py_split sep cs of
              [] \<Rightarrow> [[c]]
            | w # ws \<Rightarrow> (c # w) # ws))"

text \<open>
  \<open>int(s)\<close> on a string, base ten: surrounding whitespace is stripped, one sign is
  accepted, then come decimal digits, where a single underscore may stand between two
  digits.  \<open>None\<close> is \<open>ValueError\<close>.  (The interpreter's limit on the number of digits of
  one literal is not modelled.)
\<close>

definition is_space :: "char \<Rightarrow> bool" where
  "is_space c =
     (let n = (of_char c :: nat)
      in (9 \<le> n \<and> n \<le> 13) \<or> (28 \<le> n \<and> n \<le> 32))"

definition is_digit :: "char \<Rightarrow> bool" where
  "is_digit c = (let n = (of_char c :: nat) in 48 \<le> n \<and> n \<le> 57)"

definition digit_val :: "char \<Rightarrow> int" where
  "digit_val c = int (of_char c) - 48"

definition strip :: "string \<Rightarrow> string" where
  "strip s = rev (dropWhile is_space (rev (dropWhile is_space s)))"

fun digit_groups :: "int \<Rightarrow> string \<Rightarrow> int option" where
  "digit_groups acc [] = Some acc"
| "digit_groups acc [c] = (if is_digit c then Some (10 * acc + digit_val c) else None)"
| "digit_groups acc (c # d # ds) =
     (if is_digit c then digit_groups (10 * acc + digit_val c) (d # ds)
      else if c = CHR ''_'' \<and> is_digit d then digit_groups (10 * acc + digit_val d) ds
      else None)"

definition py_int_digits :: "string \<Rightarrow> int option" where
  "py_int_digits s =
     (case s of
        [] \<Rightarrow> None
      | c # cs \<Rightarrow> if is_digit c then digit_groups (digit_val c) cs else None)"

definition py_int :: "string \<Rightarrow> int option" where
  "py_int s =
     (case strip s of
        [] \<Rightarrow> None
      | c # cs \<Rightarrow>
          if c = CHR ''+'' then py_int_digits cs
          else if c = CHR ''-'' then map_option uminus (py_int_digits cs)
          else py_int_digits (c # cs))"

text \<open>
  The key function of the sort in \<open>load_data\<close>:
  \<^verbatim>\<open>lambda x: int(x['name'].split('-')[1]) if '-' in x['name'] else 999\<close>.
  The condition is evaluated first, so a missing \<open>name\<close> is \<open>KeyError\<close>; the subscript
  \<open>[1]\<close> is the second field of the split.
\<close>

definition sort_key_of :: "endpoint \<Rightarrow> exc + int" where
  "sort_key_of x =
     (case name x of
        None \<Rightarrow> Inl KeyError
      | Some n \<Rightarrow>
          if CHR ''-'' \<in> set n then
            (case py_split (CHR ''-'') n of
               _ # field # _ \<Rightarrow>
                 (case py_int field of None \<Rightarrow> Inl ValueError | Some k \<Rightarrow> Inr k)
             | _ \<Rightarrow> Inl IndexError)
          else Inr 999)"

text \<open>
  \<open>list.sort(key=...)\<close>: the keys of all elements are computed first, in order, and the
  first exception ends the call; then the elements are sorted by key, stably.
\<close>

fun keys_of :: "endpoint list \<Rightarrow> exc + int list" where
  "keys_of [] = Inr []"
| "keys_of (x # xs) =
     (case sort_key_of x of
        Inl e \<Rightarrow> Inl e
      | Inr k \<Rightarrow> (case keys_of xs of Inl e \<Rightarrow> Inl e | Inr ks \<Rightarrow> Inr (k # ks)))"

definition sort_endpoints :: "endpoint list \<Rightarrow> exc + endpoint list" where
  "sort_endpoints eps =
     (case keys_of eps of
        Inl e \<Rightarrow> Inl e
      | Inr ks \<Rightarrow> Inr (map snd (sort_key fst (zip ks eps))))"

text \<open>
  \<open>load_data\<close>; \<open>outcome\<close> is what the fetch met and \<open>now\<close> the clock at the end.  An
  exception of the sort leaves the method at once (\<open>Inl\<close>).
\<close>

definition load_data :: "exc + endpoint list \<Rightarrow> real \<Rightarrow> viewer \<Rightarrow> exc + viewer" where
  "load_data outcome now s =
     (let eps = get_endpoints outcome in
      if eps \<noteq> [] then
        (case sort_endpoints eps of
           Inl e \<Rightarrow> Inl e
         | Inr sorted_eps \<Rightarrow> Inr (s\<lparr>endpoints := sorted_eps, last_data_update_time := now\<rparr>))
      else Inr (s\<lparr>endpoints := eps, last_data_update_time := now\<rparr>))"

text \<open>A record that has only a name.\<close>

definition named :: "string \<Rightarrow> endpoint" where
  "named n =
     \<lparr>name = Some n, ident = None, phase = None, ip_address = None, connection_id = None\<rparr>"


section \<open>Scrolling and navigation\<close>

text \<open>
  \<open>handle_scroll\<close>; \<open>height\<close> is the first component of \<open>getmaxyx()\<close> at the call.
\<close>

definition handle_scroll :: "int \<Rightarrow> viewer \<Rightarrow> viewer" where
  "handle_scroll height s =
     (let max_scroll = max 0 (int (length (endpoints s)) - 1);
          visible_rows = height - 10;
          off = (if current_row s < scroll_offset s then current_row s
                 else if current_row s \<ge> scroll_offset s + visible_rows
                 then current_row s - visible_rows + 1
                 else scroll_offset s)
      in s\<lparr>scroll_offset := max 0 (min off max_scroll)\<rparr>)"

text \<open>The keys that the loop of \<open>run\<close> tells apart; \<open>Key_other\<close> is any other code or the timeout.\<close>

datatype key =
    Key_q | Key_r | Key_t
  | KEY_UP | KEY_DOWN | KEY_PPAGE | KEY_NPAGE | KEY_HOME | KEY_END
  | Key_other

text \<open>
  The navigation branches of the \<open>if\<close>/\<open>elif\<close> chain in \<open>run\<close>.  A branch whose guard
  fails on the row falls through the rest of the chain, where no other branch has its key.
\<close>

fun navigate :: "int \<Rightarrow> key \<Rightarrow> viewer \<Rightarrow> viewer" where
  "navigate height KEY_UP s =
     (if current_row s > 0
      then handle_scroll height (s\<lparr>current_row := current_row s - 1\<rparr>) else s)"
| "navigate height KEY_DOWN s =
     (if current_row s < int (length (endpoints s)) - 1
      then handle_scroll height (s\<lparr>current_row := current_row s + 1\<rparr>) else s)"
| "navigate height KEY_PPAGE s =
     handle_scroll height (s\<lparr>current_row := max 0 (current_row s - 10)\<rparr>)"
| "navigate height KEY_NPAGE s =
     handle_scroll height
       (s\<lparr>current_row := min (int (length (endpoints s)) - 1) (current_row s + 10)\<rparr>)"
| "navigate height KEY_HOME s = s\<lparr>current_row := 0, scroll_offset := 0\<rparr>"
| "navigate height KEY_END s =
     handle_scroll height (s\<lparr>current_row := int (length (endpoints s)) - 1\<rparr>)"
| "navigate height k s = s"

text \<open>A run of key presses on a terminal of one height.\<close>

definition nav_keys :: "int \<Rightarrow> key list \<Rightarrow> viewer \<Rightarrow> viewer" where
  "nav_keys height ks s = foldl (\<lambda>s k. navigate height k s) s ks"

text \<open>
  The two conditions on the selection: the selected row is a row of the list, and it falls
  in the window of \<open>height - 10\<close> rows that starts at the scroll offset.
\<close>

definition selection_valid :: "viewer \<Rightarrow> bool" where
  "selection_valid s = (0 \<le> current_row s \<and> current_row s < int (length (endpoints s)))"

definition in_window :: "int \<Rightarrow> viewer \<Rightarrow> bool" where
  "in_window height s =
     (scroll_offset s \<le> current_row s \<and> current_row s < scroll_offset s + (height - 10))"

section \<open>Refresh scheduling and the main loop\<close>

text \<open>The test at the head of each frame; \<open>now\<close> is \<open>time.time()\<close>, taken as a real number.\<close>

definition should_auto_refresh :: "real \<Rightarrow> viewer \<Rightarrow> bool" where
  "should_auto_refresh now s =
     (auto_refresh s \<and> now - last_refresh_time s \<ge> real_of_int (refresh_interval s))"

definition mark_refreshed :: "real \<Rightarrow> viewer \<Rightarrow> viewer" where
  "mark_refreshed now s = s\<lparr>last_refresh_time := now\<rparr>"

definition toggle :: "real \<Rightarrow> viewer \<Rightarrow> viewer" where
  "toggle now s =
     (let s1 = s\<lparr>auto_refresh := \<not> auto_refresh s\<rparr>
      in if auto_refresh s1 then s1\<lparr>last_refresh_time := now\<rparr> else s1)"

text \<open>
  What one refresh meets: the outcome of the fetch, the clock read at the end of
  \<open>load_data\<close> and the clock read by the caller afterwards.
\<close>

record fetch_io =
  fetch_outcome :: "exc + endpoint list"
  load_clock :: real
  mark_clock :: real

definition refresh :: "fetch_io \<Rightarrow> viewer \<Rightarrow> exc + viewer" where
  "refresh io s =
     (case load_data (fetch_outcome io) (load_clock io) s of
        Inl e \<Rightarrow> Inl e
      | Inr s1 \<Rightarrow> Inr (mark_refreshed (mark_clock io) s1))"

text \<open>
  What one iteration of the loop meets.  Drawing changes no attribute and is left out,
  and with it the \<open>curses.error\<close> that a write outside a small terminal can raise;
  \<open>key_read\<close> is the result of \<open>getch()\<close>, or the exception that arrives while waiting.
\<close>

record frame_io =
  check_clock :: real
  auto_io :: fetch_io
  key_read :: "exc + key"
  key_io :: fetch_io
  toggle_clock :: real
  scroll_height :: int

datatype loop = Continue viewer | Break viewer

definition handle_key :: "frame_io \<Rightarrow> key \<Rightarrow> viewer \<Rightarrow> exc + loop" where
  "handle_key io k s =
     (if k = Key_q then Inr (Break s)
      else if k = Key_r then
        (case refresh (key_io io) s of Inl e \<Rightarrow> Inl e | Inr s1 \<Rightarrow> Inr (Continue s1))
      else if k = Key_t then Inr (Continue (toggle (toggle_clock io) s))
      else Inr (Continue (navigate (scroll_height io) k s)))"

definition frame :: "frame_io \<Rightarrow> viewer \<Rightarrow> exc + loop" where
  "frame io s =
     (case (if should_auto_refresh (check_clock io) s then refresh (auto_io io) s else Inr s) of
        Inl e \<Rightarrow> Inl e
      | Inr s1 \<Rightarrow>
          (case key_read io of
             Inl e \<Rightarrow> Inl e
           | Inr k \<Rightarrow> handle_key io k s1))"

definition loop_state :: "loop \<Rightarrow> viewer" where
  "loop_state l = (case l of Continue s \<Rightarrow> s | Break s \<Rightarrow> s)"

text \<open>
  \<open>run\<close> on a script of frames: \<open>Continue\<close> when the script ends with the loop still going.
\<close>

fun run :: "frame_io list \<Rightarrow> viewer \<Rightarrow> exc + loop" where
  "run [] s = Inr (Continue s)"
| "run (io # ios) s =
     (case frame io s of
        Inl e \<Rightarrow> Inl e
      | Inr (Break s1) \<Rightarrow> Inr (Break s1)
      | Inr (Continue s1) \<Rightarrow> run ios s1)"

text \<open>
  \<open>main\<close>: the constructor with its initial load, then \<open>run\<close>; only \<open>KeyboardInterrupt\<close>
  is caught.
\<close>

datatype exit = Returned | Uncaught exc | Running viewer

definition main :: "real \<Rightarrow> fetch_io \<Rightarrow> frame_io list \<Rightarrow> exit" where
  "main start io ios =
     (case load_data (fetch_outcome io) (load_clock io) (init_viewer start) of
        Inl e \<Rightarrow> (if e = KeyboardInterrupt then Returned else Uncaught e)
      | Inr s \<Rightarrow>
          (case run ios s of
             Inl e \<Rightarrow> (if e = KeyboardInterrupt then Returned else Uncaught e)
           | Inr (Break s1) \<Rightarrow> Returned
           | Inr (Continue s1) \<Rightarrow> Running s1))"

text \<open>Inputs of the loop for the examples: a fetch that returns nothing, one that is interrupted.\<close>

definition empty_fetch :: fetch_io where
  "empty_fetch = \<lparr>fetch_outcome = Inr [], load_clock = 0, mark_clock = 0\<rparr>"

definition interrupted_fetch :: fetch_io where
  "interrupted_fetch = \<lparr>fetch_outcome = Inl KeyboardInterrupt, load_clock = 21, mark_clock = 22\<rparr>"

definition toggle_frame :: frame_io where
  "toggle_frame =
     \<lparr>check_clock = 1, auto_io = empty_fetch, key_read = Inr Key_t, key_io = empty_fetch,
      toggle_clock = 2, scroll_height = 24\<rparr>"

definition quiet_frame :: frame_io where
  "quiet_frame =
     \<lparr>check_clock = 20, auto_io = interrupted_fetch, key_read = Inr Key_other,
      key_io = interrupted_fetch, toggle_clock = 23, scroll_height = 24\<rparr>"

section \<open>Layout of the header and the table\<close>




text \<open>
  The indices of the records that the loop of \<open>draw_table\<close> draws, in order.  The loop
  ends at the first index past the list and at the first line that reaches the footer.
\<close>

definition draw_table_rows :: "int \<Rightarrow> int \<Rightarrow> viewer \<Rightarrow> int list" where
  "draw_table_rows start_y height s =
     (if endpoints s = [] then []
      else
        let table_start_y = start_y + 2;
            visible_rows = height - table_start_y - 3
        in map (\<lambda>i. scroll_offset s + i)
             (takeWhile
                (\<lambda>i. \<not> scroll_offset s + i \<ge> int (length (endpoints s)) \<and>
                      \<not> table_start_y + i \<ge> height - 3)
                [0..visible_rows - 1]))"

section \<open>The sort key as the specification words it\<close>


section \<open>Loading: selection, order and exceptions\<close>

lemma keys_of_Inr:
  "keys_of eps = Inr ks \<Longrightarrow> length ks = length eps \<and> map sort_key_of eps = map Inr ks"
  by (induction eps arbitrary: ks) (auto split: sum.splits)

lemma sort_endpoints_length:
  "sort_endpoints eps = Inr res \<Longrightarrow> length res = length eps"
  by (auto simp: sort_endpoints_def split: sum.splits dest: keys_of_Inr)




lemmas key_eval =
  sort_endpoints_def sort_key_of_def named_def py_int_def py_int_digits_def strip_def
  is_space_def is_digit_def digit_val_def


lemma load_five:
  "load_data (Inr [named ''ep-1'', named ''ep-2'', named ''ep-3'', named ''ep-4'', named ''ep-5''])
     now s =
     Inr (s\<lparr>endpoints := [named ''ep-1'', named ''ep-2'', named ''ep-3'', named ''ep-4'',
              named ''ep-5''],
            last_data_update_time := now\<rparr>)"
  by (simp add: load_data_def get_endpoints_def key_eval)

text \<open>
  Claim C1, as the code has it: \<open>load_data\<close> runs no clamping and no reconciliation.  A
  load that returns leaves \<open>current_row\<close> and \<open>scroll_offset\<close> as they were, whatever the
  length of the new list, which is the length of what was fetched; so the two lie in the
  new range only if they already did.
\<close>

theorem load_data_keeps_selection:
  "load_data fetched now s = Inr s' \<Longrightarrow>
     current_row s' = current_row s \<and> scroll_offset s' = scroll_offset s \<and>
     length (endpoints s') = length (get_endpoints fetched)"
  by (auto simp: load_data_def Let_def split: if_splits sum.splits dest: sort_endpoints_length)

text \<open>
  Claim C1 as stated fails: with 50 records on a terminal of 20 lines, \<open>End\<close> selects row
  49 with offset 40; a load of 5 records then leaves row 49 and offset 40, outside the
  new list.
\<close>

theorem load_data_shrink_counterexample:
  "nav_keys 20 [KEY_END] ((init_viewer 0)\<lparr>endpoints := replicate 50 (named ''ep-1'')\<rparr>) =
     (init_viewer 0)\<lparr>endpoints := replicate 50 (named ''ep-1''), current_row := 49,
        scroll_offset := 40\<rparr> \<and>
   load_data (Inr (map named [''ep-1'', ''ep-2'', ''ep-3'', ''ep-4'', ''ep-5''])) 1
     ((init_viewer 0)\<lparr>endpoints := replicate 50 (named ''ep-1''), current_row := 49,
        scroll_offset := 40\<rparr>) =
     Inr ((init_viewer 0)\<lparr>endpoints := map named [''ep-1'', ''ep-2'', ''ep-3'', ''ep-4'', ''ep-5''],
        current_row := 49, scroll_offset := 40, last_data_update_time := 1\<rparr>) \<and>
   \<not> selection_valid
     ((init_viewer 0)\<lparr>endpoints := map named [''ep-1'', ''ep-2'', ''ep-3'', ''ep-4'', ''ep-5''],
        current_row := 49, scroll_offset := 40, last_data_update_time := 1\<rparr>) \<and>
   \<not> (40::int) \<le> max 0 (int (length (map named [''ep-1'', ''ep-2'', ''ep-3'', ''ep-4'', ''ep-5''])) - 1)"
  by (simp add: load_five nav_keys_def handle_scroll_def init_viewer_def selection_valid_def)

text \<open>Claim C1, the amended statement at the load of the counterexample.\<close>

theorem load_data_keeps_selection_witness:
  "load_data (Inr (map named [''ep-1'', ''ep-2'', ''ep-3'', ''ep-4'', ''ep-5''])) 1
     ((init_viewer 0)\<lparr>current_row := 49, scroll_offset := 40\<rparr>) =
     Inr ((init_viewer 0)\<lparr>endpoints := map named [''ep-1'', ''ep-2'', ''ep-3'', ''ep-4'', ''ep-5''],
        current_row := 49, scroll_offset := 40, last_data_update_time := 1\<rparr>) \<and>
   current_row ((init_viewer 0)\<lparr>endpoints := map named [''ep-1'', ''ep-2'', ''ep-3'', ''ep-4'', ''ep-5''],
        current_row := 49, scroll_offset := 40, last_data_update_time := 1\<rparr>) =
     current_row ((init_viewer 0)\<lparr>current_row := 49, scroll_offset := 40\<rparr>)"
proof -
  have h: "load_data (Inr (map named [''ep-1'', ''ep-2'', ''ep-3'', ''ep-4'', ''ep-5''])) 1
     ((init_viewer 0)\<lparr>current_row := 49, scroll_offset := 40\<rparr>) =
     Inr ((init_viewer 0)\<lparr>endpoints := map named [''ep-1'', ''ep-2'', ''ep-3'', ''ep-4'', ''ep-5''],
        current_row := 49, scroll_offset := 40, last_data_update_time := 1\<rparr>)"
    by (simp add: load_five init_viewer_def)
  from load_data_keeps_selection [OF h] h show ?thesis by simp
qed




text \<open>
  Claim C3 at the name \<open>foo-bar\<close>: the second field is \<open>bar\<close>, \<open>int\<close> raises \<open>ValueError\<close>,
  nothing in \<open>load_data\<close>, \<open>run\<close> or \<open>main\<close> catches it, and the program ends with it.
  The load of an empty list returns, with an empty table.
\<close>

theorem load_data_raises_on_name:
  "load_data (Inr [named ''foo-bar'']) now s = Inl ValueError \<and>
   main start \<lparr>fetch_outcome = Inr [named ''foo-bar''], load_clock = t1, mark_clock = t2\<rparr> ios =
     Uncaught ValueError \<and>
   load_data (Inr []) now s = Inr (s\<lparr>endpoints := [], last_data_update_time := now\<rparr>)"
  by (simp add: main_def load_data_def get_endpoints_def key_eval)

section \<open>Navigation and scrolling\<close>

lemma handle_scroll_fields [simp]:
  "current_row (handle_scroll h s) = current_row s"
  "endpoints (handle_scroll h s) = endpoints s"
  by (simp_all add: handle_scroll_def Let_def)

lemma handle_scroll_offset_range:
  "0 \<le> scroll_offset (handle_scroll h s) \<and>
   scroll_offset (handle_scroll h s) \<le> max 0 (int (length (endpoints s)) - 1)"
  by (simp add: handle_scroll_def Let_def)

lemma handle_scroll_top:
  "current_row s = 0 \<Longrightarrow> 0 \<le> scroll_offset s \<Longrightarrow> 11 \<le> h \<Longrightarrow>
     scroll_offset (handle_scroll h s) = 0"
  by (simp add: handle_scroll_def Let_def)

lemma handle_scroll_in_window:
  "selection_valid s \<Longrightarrow> 11 \<le> h \<Longrightarrow> in_window h (handle_scroll h s)"
  by (auto simp: handle_scroll_def Let_def selection_valid_def in_window_def)


lemma navigate_endpoints [simp]: "endpoints (navigate h k s) = endpoints s"
  by (cases k) simp_all

lemma navigate_valid: "selection_valid s \<Longrightarrow> selection_valid (navigate h k s)"
  by (cases k) (auto simp: selection_valid_def)

lemma navigate_in_window:
  assumes "selection_valid s" and "in_window h s" and "11 \<le> h"
  shows "in_window h (navigate h k s)"
proof (cases k)
  case KEY_UP
  with assms show ?thesis
    by (cases "current_row s > 0") (auto intro!: handle_scroll_in_window simp: selection_valid_def)
next
  case KEY_DOWN
  with assms show ?thesis
    by (cases "current_row s < int (length (endpoints s)) - 1")
       (auto intro!: handle_scroll_in_window simp: selection_valid_def)
next
  case KEY_HOME
  with assms show ?thesis by (simp add: in_window_def)
qed (use assms in \<open>auto intro!: handle_scroll_in_window simp: selection_valid_def\<close>)

lemma nav_keys_snoc: "nav_keys h (ks @ [k]) s = navigate h k (nav_keys h ks s)"
  by (simp add: nav_keys_def)

lemma nav_keys_endpoints [simp]: "endpoints (nav_keys h ks s) = endpoints s"
proof (induction ks rule: rev_induct)
  case Nil
  show ?case by (simp add: nav_keys_def)
next
  case (snoc k ks)
  then show ?case by (simp add: nav_keys_snoc)
qed

lemma nav_keys_valid: "selection_valid s \<Longrightarrow> selection_valid (nav_keys h ks s)"
proof (induction ks rule: rev_induct)
  case Nil
  then show ?case by (simp add: nav_keys_def)
next
  case (snoc k ks)
  then show ?case by (simp add: nav_keys_snoc navigate_valid)
qed

lemma nav_keys_in_window:
  "selection_valid s \<Longrightarrow> in_window h s \<Longrightarrow> 11 \<le> h \<Longrightarrow> in_window h (nav_keys h ks s)"
proof (induction ks rule: rev_induct)
  case Nil
  then show ?case by (simp add: nav_keys_def)
next
  case (snoc k ks)
  then show ?case by (simp add: nav_keys_snoc navigate_in_window nav_keys_valid)
qed

lemma reconcile_idem:
  fixes r off v m :: int
  assumes "1 \<le> v" and "0 \<le> m"
  defines "o1 \<equiv> max 0 (min (if r < off then r else if r \<ge> off + v then r - v + 1 else off) m)"
  shows "max 0 (min (if r < o1 then r else if r \<ge> o1 + v then r - v + 1 else o1) m) = o1"
  using assms(1,2) unfolding o1_def max_def min_def by (simp split: if_splits)

text \<open>
  Claim C4 on the empty list, from the state after the constructor: \<open>End\<close> and
  \<open>Page Down\<close> set \<open>current_row\<close> to \<open>len - 1 = -1\<close>, on a terminal of any height.  \<open>Up\<close>,
  \<open>Down\<close>, \<open>Page Up\<close> and \<open>Home\<close> change nothing there.
\<close>

theorem navigate_empty_list:
  "current_row (navigate h KEY_END (init_viewer t)) = - 1 \<and>
   current_row (navigate h KEY_NPAGE (init_viewer t)) = - 1 \<and>
   navigate h KEY_UP (init_viewer t) = init_viewer t \<and>
   navigate h KEY_DOWN (init_viewer t) = init_viewer t \<and>
   navigate h KEY_PPAGE (init_viewer t) = init_viewer t \<and>
   navigate h KEY_HOME (init_viewer t) = init_viewer t"
  by (simp add: init_viewer_def handle_scroll_def Let_def)

text \<open>
  Claim C5, as the code has it: on a terminal of at least 11 lines, where
  \<open>visible_rows = height - 10\<close> is at least 1, \<open>handle_scroll\<close> applied twice gives what
  it gives applied once, for every row, offset and list.
\<close>

theorem handle_scroll_idempotent:
  assumes "11 \<le> h"
  shows "handle_scroll h (handle_scroll h s) = handle_scroll h s"
proof -
  let ?r = "current_row s" and ?v = "h - 10"
  let ?m = "max 0 (int (length (endpoints s)) - 1)"
  define o1 where "o1 = max 0 (min (if ?r < scroll_offset s then ?r
      else if ?r \<ge> scroll_offset s + ?v then ?r - ?v + 1 else scroll_offset s) ?m)"
  have first: "handle_scroll h s = s\<lparr>scroll_offset := o1\<rparr>"
    by (simp add: handle_scroll_def Let_def o1_def)
  have second: "handle_scroll h (s\<lparr>scroll_offset := o1\<rparr>) =
      s\<lparr>scroll_offset := max 0 (min (if ?r < o1 then ?r
        else if ?r \<ge> o1 + ?v then ?r - ?v + 1 else o1) ?m)\<rparr>"
    by (simp add: handle_scroll_def Let_def)
  have "max 0 (min (if ?r < o1 then ?r else if ?r \<ge> o1 + ?v then ?r - ?v + 1 else o1) ?m) = o1"
    unfolding o1_def using assms by (intro reconcile_idem) simp_all
  with first second show ?thesis by simp
qed

text \<open>
  Claim C5 as stated fails for \<open>visible_rows \<le> 0\<close>: on a terminal of 10 lines, with 100
  records, row 5 and offset 5, the first application gives offset 6 and the second
  gives offset 5.
\<close>

theorem handle_scroll_idempotent_counterexample:
  "scroll_offset (handle_scroll 10 ((init_viewer 0)\<lparr>endpoints := replicate 100 (named ''ep-1''),
      current_row := 5, scroll_offset := 5\<rparr>)) = 6 \<and>
   scroll_offset (handle_scroll 10 (handle_scroll 10
     ((init_viewer 0)\<lparr>endpoints := replicate 100 (named ''ep-1''),
      current_row := 5, scroll_offset := 5\<rparr>))) = 5"
  by (simp add: handle_scroll_def init_viewer_def)

text \<open>Claim C5, the amended statement on a terminal of 20 lines.\<close>

theorem handle_scroll_idempotent_witness:
  "(11::int) \<le> 20 \<and>
   handle_scroll 20 (handle_scroll 20 ((init_viewer 0)\<lparr>endpoints := replicate 100 (named ''ep-1''),
      current_row := 50, scroll_offset := 5\<rparr>)) =
   handle_scroll 20 ((init_viewer 0)\<lparr>endpoints := replicate 100 (named ''ep-1''),
      current_row := 50, scroll_offset := 5\<rparr>)"
proof -
  have h: "(11::int) \<le> 20" by simp
  from handle_scroll_idempotent [OF h] h show ?thesis by simp
qed

text \<open>
  Claim C6, as the code has it.  From a state whose selected row is a row of the list,
  every sequence of navigation keys leaves it a row of the list.  If moreover the terminal
  has at least 11 lines, so that the window of \<open>height - 10\<close> rows is not empty, keeps its
  height, and the window contains the selected row at the start (as it does after the
  constructor, at row 0 and offset 0), then the window contains the selected row at the
  end.
\<close>

theorem navigation_keeps_selection_visible:
  "selection_valid s \<Longrightarrow>
     selection_valid (nav_keys h ks s) \<and>
     (in_window h s \<and> 11 \<le> h \<longrightarrow> in_window h (nav_keys h ks s))"
  by (simp add: nav_keys_valid nav_keys_in_window)

text \<open>
  Claim C6 as stated fails on a terminal of 10 lines, where \<open>visible_rows = 0\<close>: with 3
  records, \<open>End\<close> from the initial state gives row 2 and offset 2, and the window
  \<open>[2, 2 + 0)\<close> is empty.
\<close>

theorem navigation_window_counterexample:
  "selection_valid ((init_viewer 0)\<lparr>endpoints := [named ''ep-1'', named ''ep-2'', named ''ep-3'']\<rparr>) \<and>
   current_row (nav_keys 10 [KEY_END]
     ((init_viewer 0)\<lparr>endpoints := [named ''ep-1'', named ''ep-2'', named ''ep-3'']\<rparr>)) = 2 \<and>
   scroll_offset (nav_keys 10 [KEY_END]
     ((init_viewer 0)\<lparr>endpoints := [named ''ep-1'', named ''ep-2'', named ''ep-3'']\<rparr>)) = 2 \<and>
   \<not> in_window 10 (nav_keys 10 [KEY_END]
     ((init_viewer 0)\<lparr>endpoints := [named ''ep-1'', named ''ep-2'', named ''ep-3'']\<rparr>))"
  by (simp add: nav_keys_def handle_scroll_def Let_def init_viewer_def in_window_def
      selection_valid_def)

text \<open>Claim C6, the amended statement with 25 records on a terminal of 20 lines.\<close>

theorem navigation_keeps_selection_visible_witness:
  "selection_valid ((init_viewer 0)\<lparr>endpoints := replicate 25 (named ''ep-1'')\<rparr>) \<and>
   in_window 20 ((init_viewer 0)\<lparr>endpoints := replicate 25 (named ''ep-1'')\<rparr>) \<and>
   (11::int) \<le> 20 \<and>
   selection_valid (nav_keys 20 [KEY_END, KEY_UP, KEY_NPAGE, KEY_PPAGE, KEY_DOWN, KEY_HOME]
     ((init_viewer 0)\<lparr>endpoints := replicate 25 (named ''ep-1'')\<rparr>)) \<and>
   in_window 20 (nav_keys 20 [KEY_END, KEY_UP, KEY_NPAGE, KEY_PPAGE, KEY_DOWN, KEY_HOME]
     ((init_viewer 0)\<lparr>endpoints := replicate 25 (named ''ep-1'')\<rparr>))"
proof -
  have h1: "selection_valid ((init_viewer 0)\<lparr>endpoints := replicate 25 (named ''ep-1'')\<rparr>)"
    by (simp add: selection_valid_def init_viewer_def)
  have h2: "in_window 20 ((init_viewer 0)\<lparr>endpoints := replicate 25 (named ''ep-1'')\<rparr>) \<and>
      (11::int) \<le> 20"
    by (simp add: in_window_def init_viewer_def)
  from navigation_keeps_selection_visible [OF h1, of 20] h1 h2 show ?thesis by blast
qed

text \<open>
  Claim C8, as the code has it: with 25 records on a terminal of 20 lines (10 visible
  rows), from any state, \<open>End\<close> selects row 24 and three \<open>Page Up\<close> lead to rows 14, 4 and
  0; the end is row 0 at offset 0, and the window \<open>[0, 10)\<close> includes row 0.
\<close>

theorem end_then_three_page_up:
  assumes "length (endpoints s) = 25"
  shows "current_row (nav_keys 20 [KEY_END, KEY_PPAGE, KEY_PPAGE, KEY_PPAGE] s) = 0 \<and>
   scroll_offset (nav_keys 20 [KEY_END, KEY_PPAGE, KEY_PPAGE, KEY_PPAGE] s) = 0"
proof -
  define s1 where "s1 = navigate 20 KEY_END s"
  define s2 where "s2 = navigate 20 KEY_PPAGE s1"
  define s3 where "s3 = navigate 20 KEY_PPAGE s2"
  define s4 where "s4 = navigate 20 KEY_PPAGE s3"
  have r1: "current_row s1 = 24" using assms by (simp add: s1_def)
  have r2: "current_row s2 = 14" using r1 by (simp add: s2_def)
  have r3: "current_row s3 = 4" using r2 by (simp add: s3_def)
  have o3: "0 \<le> scroll_offset s3"
    unfolding s3_def by (simp add: handle_scroll_offset_range)
  have r4: "current_row s4 = 0" using r3 by (simp add: s4_def)
  have o4: "scroll_offset s4 = 0"
    unfolding s4_def using r3 o3 by (simp add: handle_scroll_top)
  have "nav_keys 20 [KEY_END, KEY_PPAGE, KEY_PPAGE, KEY_PPAGE] s = s4"
    by (simp add: nav_keys_def s1_def s2_def s3_def s4_def)
  with r4 o4 show ?thesis by simp
qed

text \<open>
  Claim C8 as stated fails: from the initial state with 25 records the four keys end at
  row 0, not at row 15.
\<close>

theorem end_then_three_page_up_counterexample:
  "current_row (nav_keys 20 [KEY_END, KEY_PPAGE, KEY_PPAGE, KEY_PPAGE]
     ((init_viewer 0)\<lparr>endpoints := replicate 25 (named ''ep-1'')\<rparr>)) = 0 \<and>
   current_row (nav_keys 20 [KEY_END, KEY_PPAGE, KEY_PPAGE, KEY_PPAGE]
     ((init_viewer 0)\<lparr>endpoints := replicate 25 (named ''ep-1'')\<rparr>)) \<noteq> 15"
  by (simp add: nav_keys_def handle_scroll_def Let_def init_viewer_def)

text \<open>Claim C8, the amended statement from row 7 and offset 3.\<close>

theorem end_then_three_page_up_witness:
  "length (endpoints ((init_viewer 0)\<lparr>endpoints := replicate 25 (named ''ep-1''),
      current_row := 7, scroll_offset := 3\<rparr>)) = 25 \<and>
   current_row (nav_keys 20 [KEY_END, KEY_PPAGE, KEY_PPAGE, KEY_PPAGE]
     ((init_viewer 0)\<lparr>endpoints := replicate 25 (named ''ep-1''),
      current_row := 7, scroll_offset := 3\<rparr>)) = 0 \<and>
   scroll_offset (nav_keys 20 [KEY_END, KEY_PPAGE, KEY_PPAGE, KEY_PPAGE]
     ((init_viewer 0)\<lparr>endpoints := replicate 25 (named ''ep-1''),
      current_row := 7, scroll_offset := 3\<rparr>)) = 0"
proof -
  have h: "length (endpoints ((init_viewer 0)\<lparr>endpoints := replicate 25 (named ''ep-1''),
      current_row := 7, scroll_offset := 3\<rparr>)) = 25"
    by simp
  from end_then_three_page_up [OF h] h show ?thesis by blast
qed

section \<open>Refresh scheduling\<close>

lemma handle_scroll_interval [simp]:
  "refresh_interval (handle_scroll h s) = refresh_interval s"
  by (simp add: handle_scroll_def Let_def)

lemma navigate_interval [simp]: "refresh_interval (navigate h k s) = refresh_interval s"
  by (cases k) simp_all

lemma toggle_interval [simp]: "refresh_interval (toggle now s) = refresh_interval s"
  by (simp add: toggle_def Let_def)

lemma load_data_interval:
  "load_data fetched now s = Inr s' \<Longrightarrow> refresh_interval s' = refresh_interval s"
  by (auto simp: load_data_def Let_def split: if_splits sum.splits)

lemma refresh_interval_kept:
  "refresh io s = Inr s' \<Longrightarrow> refresh_interval s' = refresh_interval s"
  by (auto simp: refresh_def mark_refreshed_def split: sum.splits dest: load_data_interval)

lemma handle_key_interval:
  "handle_key io k s = Inr l \<Longrightarrow> refresh_interval (loop_state l) = refresh_interval s"
  by (auto simp: handle_key_def loop_state_def split: if_splits sum.splits
      dest: refresh_interval_kept)

lemma frame_interval:
  "frame io s = Inr l \<Longrightarrow> refresh_interval (loop_state l) = refresh_interval s"
  by (auto simp: frame_def split: if_splits sum.splits
      dest!: refresh_interval_kept handle_key_interval)

lemma run_interval:
  "run ios s = Inr l \<Longrightarrow> refresh_interval (loop_state l) = refresh_interval s"
proof (induction ios arbitrary: s)
  case Nil
  then show ?case by (auto simp: loop_state_def)
next
  case (Cons io ios)
  show ?case
  proof (cases "frame io s")
    case (Inl e)
    with Cons.prems show ?thesis by simp
  next
    case (Inr l1)
    note kept = frame_interval [OF Inr]
    show ?thesis
    proof (cases l1)
      case (Continue s1)
      with Cons.prems Inr have "run ios s1 = Inr l" by simp
      from Cons.IH [OF this] kept Continue show ?thesis by (simp add: loop_state_def)
    next
      case (Break s1)
      with Cons.prems Inr kept show ?thesis by (auto simp: loop_state_def)
    qed
  qed
qed

lemma main_interval:
  assumes "main start io ios = Running s"
  shows "refresh_interval s = 15"
proof -
  from assms obtain s0
    where loaded: "load_data (fetch_outcome io) (load_clock io) (init_viewer start) = Inr s0"
      and ran: "run ios s0 = Inr (Continue s)"
    by (auto simp: main_def split: sum.splits loop.splits if_splits)
  from load_data_interval [OF loaded] have "refresh_interval s0 = 15"
    by (simp add: init_viewer_def)
  with run_interval [OF ran] show ?thesis by (simp add: loop_state_def)
qed

text \<open>
  Claim C7.  In every state \<open>s\<close> that the running program reaches, the interval is 15 and
  the test of the loop holds at \<open>now\<close> exactly when auto-refresh is on and
  \<open>now - last_refresh_time \<ge> 15\<close>.  After the refresh time is set to \<open>t\<close>: with
  auto-refresh on the test fails at \<open>t + 14.9\<close> and holds at \<open>t + 15.0\<close>; with auto-refresh
  off it fails at every time.  (Clock readings are taken as real numbers.)
\<close>

theorem should_auto_refresh_every_15s:
  assumes "main start io ios = Running s"
  shows "(should_auto_refresh now s \<longleftrightarrow> auto_refresh s \<and> now - last_refresh_time s \<ge> 15) \<and>
     (auto_refresh s \<longrightarrow>
        \<not> should_auto_refresh (t + 14.9) (mark_refreshed t s) \<and>
        should_auto_refresh (t + 15.0) (mark_refreshed t s)) \<and>
     (\<not> auto_refresh s \<longrightarrow> \<not> should_auto_refresh now (mark_refreshed t s))"
  using main_interval [OF assms]
  by (simp add: should_auto_refresh_def mark_refreshed_def)

text \<open>
  Claim C7 at two runs: one frame with the toggle key, which turns auto-refresh on at
  time 2, and no frame at all, where auto-refresh is off.
\<close>

theorem should_auto_refresh_every_15s_witness:
  "main 0 empty_fetch [toggle_frame] =
     Running ((init_viewer 0)\<lparr>auto_refresh := True, last_refresh_time := 2\<rparr>) \<and>
   auto_refresh ((init_viewer 0)\<lparr>auto_refresh := True, last_refresh_time := 2\<rparr>) \<and>
   \<not> should_auto_refresh (2 + 14.9)
       (mark_refreshed 2 ((init_viewer 0)\<lparr>auto_refresh := True, last_refresh_time := 2\<rparr>)) \<and>
   should_auto_refresh (2 + 15.0)
       (mark_refreshed 2 ((init_viewer 0)\<lparr>auto_refresh := True, last_refresh_time := 2\<rparr>)) \<and>
   main 0 empty_fetch [] = Running (init_viewer 0) \<and>
   \<not> auto_refresh (init_viewer 0) \<and>
   \<not> should_auto_refresh 1000 (mark_refreshed 2 (init_viewer 0))"
proof -
  have on: "main 0 empty_fetch [toggle_frame] =
      Running ((init_viewer 0)\<lparr>auto_refresh := True, last_refresh_time := 2\<rparr>)"
    by (simp add: main_def load_data_def get_endpoints_def init_viewer_def frame_def
        should_auto_refresh_def handle_key_def toggle_def empty_fetch_def toggle_frame_def)
  have off: "main 0 empty_fetch [] = Running (init_viewer 0)"
    by (simp add: main_def load_data_def get_endpoints_def init_viewer_def empty_fetch_def)
  have flags: "auto_refresh ((init_viewer 0)\<lparr>auto_refresh := True, last_refresh_time := 2\<rparr>) \<and>
      \<not> auto_refresh (init_viewer 0)"
    by (simp add: init_viewer_def)
  from should_auto_refresh_every_15s [OF on, of _ 2]
    should_auto_refresh_every_15s [OF off, of 1000 2] on off flags
  show ?thesis by blast
qed

section \<open>Exceptions of the fetch\<close>

text \<open>
  Claim C10.  Whatever exception the fetch meets, \<open>KeyboardInterrupt\<close> included,
  \<open>get_endpoints\<close> returns the empty list.  A frame whose automatic or manual refresh is
  interrupted so does not leave the loop: \<open>run\<close> goes on to the next frame with an empty
  list.  An interrupt that arrives while the loop waits for a key leaves \<open>run\<close>.
\<close>

theorem get_endpoints_swallows_interrupt:
  "get_endpoints (Inl e) = [] \<and>
   (should_auto_refresh (check_clock io) s \<and> fetch_outcome (auto_io io) = Inl e \<and>
    key_read io = Inr Key_other \<longrightarrow>
      run (io # ios) s = run ios (s\<lparr>endpoints := [],
        last_data_update_time := load_clock (auto_io io),
        last_refresh_time := mark_clock (auto_io io)\<rparr>)) \<and>
   (\<not> should_auto_refresh (check_clock io) s \<and> key_read io = Inr Key_r \<and>
    fetch_outcome (key_io io) = Inl e \<longrightarrow>
      run (io # ios) s = run ios (s\<lparr>endpoints := [],
        last_data_update_time := load_clock (key_io io),
        last_refresh_time := mark_clock (key_io io)\<rparr>)) \<and>
   (\<not> should_auto_refresh (check_clock io) s \<and> key_read io = Inl KeyboardInterrupt \<longrightarrow>
      run (io # ios) s = Inl KeyboardInterrupt)"
  by (simp add: get_endpoints_def frame_def handle_key_def refresh_def load_data_def
      mark_refreshed_def)

text \<open>
  Claim C10 at three frames: an automatic refresh that is due at time 20 and interrupted,
  a manual refresh that is interrupted, and an interrupt at the key read.
\<close>

theorem get_endpoints_swallows_interrupt_witness:
  "should_auto_refresh (check_clock quiet_frame) ((init_viewer 0)\<lparr>auto_refresh := True\<rparr>) \<and>
   fetch_outcome (auto_io quiet_frame) = Inl KeyboardInterrupt \<and>
   key_read quiet_frame = Inr Key_other \<and>
   run [quiet_frame] ((init_viewer 0)\<lparr>auto_refresh := True\<rparr>) =
     Inr (Continue ((init_viewer 0)\<lparr>auto_refresh := True, last_data_update_time := 21,
       last_refresh_time := 22\<rparr>)) \<and>
   \<not> should_auto_refresh (check_clock (quiet_frame\<lparr>key_read := Inr Key_r\<rparr>)) (init_viewer 0) \<and>
   run [quiet_frame\<lparr>key_read := Inr Key_r\<rparr>] (init_viewer 0) =
     Inr (Continue ((init_viewer 0)\<lparr>last_data_update_time := 21, last_refresh_time := 22\<rparr>)) \<and>
   run [quiet_frame\<lparr>key_read := Inl KeyboardInterrupt\<rparr>] (init_viewer 0) =
     Inl KeyboardInterrupt"
proof -
  have due: "should_auto_refresh (check_clock quiet_frame) ((init_viewer 0)\<lparr>auto_refresh := True\<rparr>) \<and>
      fetch_outcome (auto_io quiet_frame) = Inl KeyboardInterrupt \<and>
      key_read quiet_frame = Inr Key_other"
    by (simp add: should_auto_refresh_def quiet_frame_def interrupted_fetch_def init_viewer_def)
  have manual: "\<not> should_auto_refresh (check_clock (quiet_frame\<lparr>key_read := Inr Key_r\<rparr>))
        (init_viewer 0) \<and>
      key_read (quiet_frame\<lparr>key_read := Inr Key_r\<rparr>) = Inr Key_r \<and>
      fetch_outcome (key_io (quiet_frame\<lparr>key_read := Inr Key_r\<rparr>)) = Inl KeyboardInterrupt"
    by (simp add: should_auto_refresh_def quiet_frame_def interrupted_fetch_def init_viewer_def)
  have waiting: "\<not> should_auto_refresh (check_clock (quiet_frame\<lparr>key_read := Inl KeyboardInterrupt\<rparr>))
        (init_viewer 0) \<and>
      key_read (quiet_frame\<lparr>key_read := Inl KeyboardInterrupt\<rparr>) = Inl KeyboardInterrupt"
    by (simp add: should_auto_refresh_def quiet_frame_def init_viewer_def)
  from get_endpoints_swallows_interrupt
      [of KeyboardInterrupt quiet_frame "(init_viewer 0)\<lparr>auto_refresh := True\<rparr>" "[]"] due
  have a: "run [quiet_frame] ((init_viewer 0)\<lparr>auto_refresh := True\<rparr>) =
     Inr (Continue ((init_viewer 0)\<lparr>auto_refresh := True, last_data_update_time := 21,
       last_refresh_time := 22\<rparr>))"
    by (simp add: quiet_frame_def interrupted_fetch_def init_viewer_def)
  from get_endpoints_swallows_interrupt
      [of KeyboardInterrupt "quiet_frame\<lparr>key_read := Inr Key_r\<rparr>" "init_viewer 0" "[]"] manual
  have b: "run [quiet_frame\<lparr>key_read := Inr Key_r\<rparr>] (init_viewer 0) =
     Inr (Continue ((init_viewer 0)\<lparr>last_data_update_time := 21, last_refresh_time := 22\<rparr>))"
    by (simp add: quiet_frame_def interrupted_fetch_def init_viewer_def)
  from get_endpoints_swallows_interrupt
      [of KeyboardInterrupt "quiet_frame\<lparr>key_read := Inl KeyboardInterrupt\<rparr>" "init_viewer 0" "[]"]
    waiting
  have c: "run [quiet_frame\<lparr>key_read := Inl KeyboardInterrupt\<rparr>] (init_viewer 0) =
     Inl KeyboardInterrupt"
    by blast
  from due manual a b c show ?thesis by blast
qed

section \<open>The window of the scroll logic and the rows on screen\<close>



lemma takeWhile_filter_antitone:
  fixes xs :: "int list"
  assumes "sorted xs" and "\<And>x y. x \<le> y \<Longrightarrow> P y \<Longrightarrow> P x"
  shows "takeWhile P xs = filter P xs"
  using assms(1)
proof (induction xs)
  case Nil
  then show ?case by simp
next
  case (Cons x xs)
  show ?case
  proof (cases "P x")
    case True
    with Cons show ?thesis by simp
  next
    case False
    have "\<not> P y" if "y \<in> set xs" for y
      using that Cons.prems False assms(2) [of x y] by auto
    then have "filter P xs = []" by (simp add: filter_empty_conv)
    with False show ?thesis by simp
  qed
qed

lemma set_draw_table_rows:
  assumes "endpoints s \<noteq> []"
  shows "set (draw_table_rows start_y h s) =
     {r. scroll_offset s \<le> r \<and> r < scroll_offset s + (h - (start_y + 2) - 3) \<and>
         r < int (length (endpoints s))}"
proof -
  let ?n = "h - (start_y + 2) - 3"
  let ?P = "\<lambda>i. \<not> scroll_offset s + i \<ge> int (length (endpoints s)) \<and>
                 \<not> start_y + 2 + i \<ge> h - 3"
  have "takeWhile ?P [0..?n - 1] = filter ?P [0..?n - 1]"
    by (rule takeWhile_filter_antitone) auto
  then have "set (draw_table_rows start_y h s) =
      (\<lambda>i. scroll_offset s + i) ` {i \<in> {0..?n - 1}. ?P i}"
    using assms by (simp add: draw_table_rows_def Let_def)
  also have "\<dots> = {r. scroll_offset s \<le> r \<and> r < scroll_offset s + ?n \<and>
         r < int (length (endpoints s))}"
  proof (intro set_eqI iffI)
    fix r
    assume "r \<in> (\<lambda>i. scroll_offset s + i) ` {i \<in> {0..?n - 1}. ?P i}"
    then show "r \<in> {r. scroll_offset s \<le> r \<and> r < scroll_offset s + ?n \<and>
         r < int (length (endpoints s))}" by auto
  next
    fix r
    assume "r \<in> {r. scroll_offset s \<le> r \<and> r < scroll_offset s + ?n \<and>
         r < int (length (endpoints s))}"
    then have "r - scroll_offset s \<in> {i \<in> {0..?n - 1}. ?P i}" by auto
    then have "scroll_offset s + (r - scroll_offset s) \<in>
        (\<lambda>i. scroll_offset s + i) ` {i \<in> {0..?n - 1}. ?P i}" by (rule imageI)
    then show "r \<in> (\<lambda>i. scroll_offset s + i) ` {i \<in> {0..?n - 1}. ?P i}" by simp
  qed
  finally show ?thesis .
qed

text \<open>
  When the table has at least \<open>height - 10\<close> rows on screen, the row that \<open>handle_scroll\<close>
  keeps in its window is drawn.
\<close>

lemma selected_row_drawn:
  assumes "selection_valid s" and "11 \<le> h" and "h - 10 \<le> h - (start_y + 2) - 3"
  shows "current_row s \<in> set (draw_table_rows start_y h (handle_scroll h s))"
proof -
  from assms(1) have ne: "endpoints (handle_scroll h s) \<noteq> []"
    by (auto simp: selection_valid_def)
  from handle_scroll_in_window [OF assms(1,2)] assms(1,3) show ?thesis
    unfolding set_draw_table_rows [OF ne] by (simp add: in_window_def selection_valid_def)
qed




end
